theory Spec2Isabelle
  imports Main
begin

section \<open>The destination directory\<close>

text \<open>
  The only durable state of \<^verbatim>\<open>HF_downloader.py\<close> is what lies at the output path
  \<^verbatim>\<open>out_dir\<close>. An entry is a directory with its listing (in the order in which the
  operating system enumerates it) or a non-directory entry; the latter carries what
  \<^verbatim>\<open>stat\<close> gives for it: \<open>Some n\<close> is a size of \<open>n\<close> bytes, \<open>None\<close> is an entry on
  which \<^verbatim>\<open>stat\<close> raises (a dangling symbolic link). The destination is \<open>None\<close> when
  nothing lies at the path.
\<close>

datatype node = File "nat option" | Dir "(string \<times> node) list"

type_synonym dest = "node option"

text \<open>\<^verbatim>\<open>out_dir / name\<close>: the entry of that name below a path.\<close>

definition child :: "dest \<Rightarrow> string \<Rightarrow> dest" where
  "child d name = (case d of Some (Dir es) \<Rightarrow> map_of es name | _ \<Rightarrow> None)"

text \<open>\<^verbatim>\<open>Path.exists()\<close>: true when \<^verbatim>\<open>stat\<close> on the path succeeds.\<close>

definition path_exists :: "dest \<Rightarrow> bool" where
  "path_exists d = (case d of None \<Rightarrow> False | Some (File None) \<Rightarrow> False | Some _ \<Rightarrow> True)"

section \<open>Output and external calls\<close>

text \<open>
  Every \<^verbatim>\<open>print\<close> of the script is one message; the constructor says which line of
  the source printed it and carries the values formatted into it.
\<close>

datatype exn =
    SystemExit int
  | CalledProcessError int
  | FileNotFoundError
  | NotADirectoryError
  | HubError string

datatype msg =
    ModulesWarning
  | SummaryHeader string
  | FileEntry "string list" nat
  | ListingTruncated nat
  | AttemptingSnapshot string string
  | InsecureBanner
  | AbortIfUnauthorized
  | CommandLine "string list"
  | CloneFailed exn
  | AttemptingLfsPull
  | LfsNotFound
  | RemovingExisting string
  | AlreadyExists string
  | DownloadFinished string
  | SnapshotFailed exn
  | NoInsecureAbort
  | DefaultIsInsecure
  | ProceedingInsecure
  | CloneAlsoFailed
  | CloneCompleted
  | MissingHeader
  | MissingItem string
  | MissingAdvice
  | AllFound
  | NextSteps string

datatype event =
    Stdout msg
  | Stderr msg
  | Download string string
  | Subprocess "string list"

record world =
  dest :: dest
  trace :: "event list"

definition emit :: "event \<Rightarrow> world \<Rightarrow> world" where
  "emit e w = w\<lparr>trace := trace w @ [e]\<rparr>"

section \<open>check_required_files\<close>

definition config_label :: string where
  "config_label = ''config.json''"

definition weights_label :: string where
  "weights_label = ''model.safetensors or pytorch_model.bin''"

definition tokenizer_label :: string where
  "tokenizer_label =
     ''tokenizer.json or tokenizer_config.json or sentencepiece.bpe.model or vocab.txt''"

definition tokenizer_names :: "string list" where
  "tokenizer_names =
     [''tokenizer.json'', ''tokenizer_config.json'', ''sentencepiece.bpe.model'', ''vocab.txt'']"

text \<open>
  The function appends to \<^verbatim>\<open>missing\<close> in three steps, prints the warning about
  \<^verbatim>\<open>modules.json\<close> and returns the list.
\<close>

definition check_required_files :: "world \<Rightarrow> string list \<times> world" where
  "check_required_files w =
     (let out_dir = dest w;
          missing0 = [];
          missing1 = (if \<not> path_exists (child out_dir ''config.json'')
                      then missing0 @ [config_label] else missing0);
          missing2 = (if \<not> (path_exists (child out_dir ''model.safetensors'')
                             \<or> path_exists (child out_dir ''pytorch_model.bin''))
                      then missing1 @ [weights_label] else missing1);
          missing3 = (if \<not> list_ex (\<lambda>f. path_exists (child out_dir f)) tokenizer_names
                      then missing2 @ [tokenizer_label] else missing2);
          w1 = (if \<not> path_exists (child out_dir ''modules.json'')
                then emit (Stdout ModulesWarning) w else w)
      in (missing3, w1))"

section \<open>print_summary\<close>

text \<open>
  \<^verbatim>\<open>os.walk(out_dir)\<close>, top down: for every directory its path relative to
  \<^verbatim>\<open>out_dir\<close>, the names of its subdirectories and its other entries, then the walks
  of the subdirectories in turn. Each non-directory name comes with the result of the
  \<^verbatim>\<open>stat\<close> that the loop body makes on it. A walk that starts at something that is
  not a directory yields nothing (\<^verbatim>\<open>os.walk\<close> ignores the error of the listing).
\<close>

fun is_dir :: "node \<Rightarrow> bool" where
  "is_dir (Dir es) = True"
| "is_dir (File st) = False"

fun nondirs :: "(string \<times> node) list \<Rightarrow> (string \<times> nat option) list" where
  "nondirs [] = []"
| "nondirs ((name, File st) # es) = (name, st) # nondirs es"
| "nondirs ((name, Dir sub) # es) = nondirs es"

definition subdirs :: "(string \<times> node) list \<Rightarrow> (string \<times> node) list" where
  "subdirs es = filter (\<lambda>(name, n). is_dir n) es"

type_synonym walk_item = "string list \<times> string list \<times> (string \<times> nat option) list"

function os_walk :: "string list \<Rightarrow> node \<Rightarrow> walk_item list" where
  "os_walk root (File st) = []"
| "os_walk root (Dir es) =
     (root, map fst (subdirs es), nondirs es)
       # concat (map (\<lambda>(name, n). os_walk (root @ [name]) n) (subdirs es))"
  by pat_completeness auto
termination
proof (relation "measure (\<lambda>(root, n). size n)")
  show "wf (measure (\<lambda>(root, n). size n))" by simp
next
  fix root :: "string list" and es :: "(string \<times> node) list" and x :: "string \<times> node"
    and name :: string and n :: node
  assume mem: "x \<in> set (subdirs es)" and x: "(name, n) = x"
  from mem x have "(name, n) \<in> set es" by (simp add: subdirs_def)
  then have "size n < Suc (size_list (size_prod (\<lambda>_. 0) size) es)"
    by (induction es) auto
  then show "((root @ [name], n), (root, Dir es)) \<in> measure (\<lambda>(root, n). size n)"
    by simp
qed

definition walk_dest :: "dest \<Rightarrow> walk_item list" where
  "walk_dest d = (case d of Some n \<Rightarrow> os_walk [] n | None \<Rightarrow> [])"

text \<open>
  The inner loop over \<^verbatim>\<open>files\<close>. It returns whether the function has returned
  (line 56) together with the count reached.
\<close>

fun print_files ::
  "string list \<Rightarrow> (string \<times> nat option) list \<Rightarrow> nat \<Rightarrow> nat \<Rightarrow> world \<Rightarrow> (bool \<times> nat) \<times> world"
where
  "print_files root [] max_files count w = ((False, count), w)"
| "print_files root ((name, st) # files) max_files count w =
     (let rel = root @ [name];
          size = (case st of Some n \<Rightarrow> n | None \<Rightarrow> 0);
          w1 = emit (Stdout (FileEntry rel size)) w;
          count1 = count + 1
      in if count1 \<ge> max_files
         then ((True, count1), emit (Stdout (ListingTruncated max_files)) w1)
         else print_files root files max_files count1 w1)"

text \<open>The outer loop over the items of the walk.\<close>

fun print_walk :: "walk_item list \<Rightarrow> nat \<Rightarrow> nat \<Rightarrow> world \<Rightarrow> world" where
  "print_walk [] max_files count w = w"
| "print_walk ((root, dirs, files) # items) max_files count w =
     (case print_files root files max_files count w of
        ((True, count1), w1) \<Rightarrow> w1
      | ((False, count1), w1) \<Rightarrow> print_walk items max_files count1 w1)"

definition print_summary :: "string \<Rightarrow> nat \<Rightarrow> world \<Rightarrow> world" where
  "print_summary out_dir max_files w =
     (let w1 = emit (Stdout (SummaryHeader out_dir)) w;
          count = 0
      in print_walk (walk_dest (dest w1)) max_files count w1)"

section \<open>The external collaborators\<close>

text \<open>
  The script does not own the hub client, \<^verbatim>\<open>git\<close> or the process environment. They
  are parameters of the model:
  \<^item> \<open>snapshot_download\<close> is \<^verbatim>\<open>huggingface_hub.snapshot_download\<close>: from the
    arguments of the call and the destination it finds, either the text of the exception
    it raises (\<open>Inl\<close>) or the path it returns (\<open>Inr\<close>), and the destination it leaves;
  \<^item> \<open>run_process\<close> is what the operating system does with a command, additions to
    the environment and a working directory: the executable is not found, or the command
    runs, exits with a return code and leaves a destination;
  \<^item> \<open>HF_TOKEN\<close> and \<open>HUGGINGFACE_TOKEN\<close> are the two environment variables read.

  Of the exceptions of \<^verbatim>\<open>subprocess.run\<close> the model has the two that the source
  names: \<^verbatim>\<open>CalledProcessError\<close> and \<^verbatim>\<open>FileNotFoundError\<close>.
\<close>

datatype launch = NotFound | Exited int dest

record env =
  HF_TOKEN :: "string option"
  HUGGINGFACE_TOKEN :: "string option"
  snapshot_download :: "string \<Rightarrow> string \<Rightarrow> string option \<Rightarrow> bool \<Rightarrow> dest \<Rightarrow> (string + string) \<times> dest"
  run_process :: "string list \<Rightarrow> (string \<times> string) list \<Rightarrow> string option \<Rightarrow> dest \<Rightarrow> launch"

text \<open>The parsed command line; \<open>out\<close> is the path after \<^verbatim>\<open>expanduser().resolve()\<close>.\<close>

record args =
  repo :: string
  out :: string
  token :: "string option"
  no_symlinks :: bool
  force :: bool
  no_insecure :: bool

text \<open>Python's \<^verbatim>\<open>a or b\<close> on optional strings: \<^verbatim>\<open>None\<close> and the empty string are false.\<close>

definition py_or :: "string option \<Rightarrow> string option \<Rightarrow> string option" where
  "py_or a b = (case a of None \<Rightarrow> b | Some s \<Rightarrow> if s = [] then b else a)"

text \<open>\<^verbatim>\<open>except Exception\<close> catches everything of the model but \<^verbatim>\<open>SystemExit\<close>.\<close>

fun is_Exception :: "exn \<Rightarrow> bool" where
  "is_Exception (SystemExit n) = False"
| "is_Exception e = True"

section \<open>run_snapshot_download and run_insecure_git_clone\<close>

definition run_snapshot_download ::
  "env \<Rightarrow> string \<Rightarrow> string \<Rightarrow> string option \<Rightarrow> bool \<Rightarrow> world \<Rightarrow> (exn + string) \<times> world"
where
  "run_snapshot_download env repo_id out_dir tok use_symlinks w =
     (let w1 = emit (Stdout (AttemptingSnapshot repo_id out_dir)) w;
          w2 = emit (Download repo_id out_dir) w1
      in case snapshot_download env repo_id out_dir tok use_symlinks (dest w2) of
           (Inl detail, d) \<Rightarrow> (Inl (HubError detail), w2\<lparr>dest := d\<rparr>)
         | (Inr out_path, d) \<Rightarrow> (Inr out_path, w2\<lparr>dest := d\<rparr>))"

text \<open>
  \<^verbatim>\<open>subprocess.run(cmd, check=..., env=..., cwd=...)\<close>: the return code, or
  \<^verbatim>\<open>FileNotFoundError\<close> when the executable cannot be started, or, under
  \<^verbatim>\<open>check=True\<close>, \<^verbatim>\<open>CalledProcessError\<close> on a return code other than 0.
\<close>

definition subprocess_run ::
  "env \<Rightarrow> string list \<Rightarrow> bool \<Rightarrow> (string \<times> string) list \<Rightarrow> string option \<Rightarrow> world
     \<Rightarrow> (exn + int) \<times> world"
where
  "subprocess_run env cmd check extra_env cwd w =
     (let w1 = emit (Subprocess cmd) w
      in case run_process env cmd extra_env cwd (dest w1) of
           NotFound \<Rightarrow> (Inl FileNotFoundError, w1)
         | Exited rc d \<Rightarrow>
             (if check \<and> rc \<noteq> 0 then Inl (CalledProcessError rc) else Inr rc, w1\<lparr>dest := d\<rparr>))"

definition clone_cmd :: "string \<Rightarrow> string \<Rightarrow> string list" where
  "clone_cmd repo_id out_dir =
     [''git'', ''-c'', ''http.sslVerify=false'', ''clone'', ''https://huggingface.co/'' @ repo_id, out_dir]"

text \<open>
  Lines 105 to 112: the \<^verbatim>\<open>try\<close> block of the two \<^verbatim>\<open>git lfs\<close> commands and the
  \<^verbatim>\<open>return True\<close> after it.
\<close>

definition lfs_pull :: "env \<Rightarrow> string \<Rightarrow> world \<Rightarrow> (exn + bool) \<times> world" where
  "lfs_pull env out_dir w =
     (case subprocess_run env [''git'', ''lfs'', ''install''] False [] (Some out_dir) w of
        (Inl FileNotFoundError, w1) \<Rightarrow> (Inr True, emit (Stderr LfsNotFound) w1)
      | (Inl e, w1) \<Rightarrow> (Inl e, w1)
      | (Inr rc, w1) \<Rightarrow>
          (let w2 = emit (Stdout AttemptingLfsPull) w1
           in case subprocess_run env [''git'', ''lfs'', ''pull''] False [] (Some out_dir) w2 of
                (Inl FileNotFoundError, w3) \<Rightarrow> (Inr True, emit (Stderr LfsNotFound) w3)
              | (Inl e, w3) \<Rightarrow> (Inl e, w3)
              | (Inr rc', w3) \<Rightarrow> (Inr True, w3)))"

text \<open>
  The \<^verbatim>\<open>mkdir\<close> of the parent of \<^verbatim>\<open>out_dir\<close> acts outside the destination and is
  not part of the state. An exception other than \<^verbatim>\<open>CalledProcessError\<close> leaves the
  function through line 100.
\<close>

definition run_insecure_git_clone :: "env \<Rightarrow> string \<Rightarrow> string \<Rightarrow> world \<Rightarrow> (exn + bool) \<times> world" where
  "run_insecure_git_clone env repo_id out_dir w =
     (let cmd = clone_cmd repo_id out_dir;
          w1 = emit (Stderr InsecureBanner) w;
          w2 = emit (Stderr AbortIfUnauthorized) w1;
          w3 = emit (Stderr (CommandLine cmd)) w2
      in case subprocess_run env cmd True [(''GIT_SSL_NO_VERIFY'', ''true'')] None w3 of
           (Inl (CalledProcessError rc), w4) \<Rightarrow>
             (Inr False, emit (Stderr (CloneFailed (CalledProcessError rc))) w4)
         | (Inl e, w4) \<Rightarrow> (Inl e, w4)
         | (Inr rc, w4) \<Rightarrow> lfs_pull env out_dir w4)"

section \<open>main\<close>

text \<open>
  \<^verbatim>\<open>shutil.rmtree\<close> removes a directory with all below it and raises on anything
  else.
\<close>

definition rmtree :: "world \<Rightarrow> (exn + unit) \<times> world" where
  "rmtree w =
     (case dest w of
        Some (Dir es) \<Rightarrow> (Inr (), w\<lparr>dest := None\<rparr>)
      | Some (File st) \<Rightarrow> (Inl NotADirectoryError, w)
      | None \<Rightarrow> (Inl FileNotFoundError, w))"

text \<open>Lines 121 to 126.\<close>

definition prepare_destination :: "args \<Rightarrow> world \<Rightarrow> (exn + unit) \<times> world" where
  "prepare_destination a w =
     (if path_exists (dest w) then
        (if force a then rmtree (emit (Stdout (RemovingExisting (out a))) w)
         else (Inr (), emit (Stdout (AlreadyExists (out a))) w))
      else (Inr (), w))"

text \<open>Lines 128 to 144. \<^verbatim>\<open>sys.exit(n)\<close> raises \<^verbatim>\<open>SystemExit(n)\<close>.\<close>

definition fetch :: "args \<Rightarrow> env \<Rightarrow> string option \<Rightarrow> bool \<Rightarrow> world \<Rightarrow> (exn + unit) \<times> world" where
  "fetch a env tok use_symlinks w =
     (case run_snapshot_download env (repo a) (out a) tok use_symlinks w of
        (Inr out_path, w1) \<Rightarrow> (Inr (), emit (Stdout (DownloadFinished out_path)) w1)
      | (Inl e, w1) \<Rightarrow>
          (if \<not> is_Exception e then (Inl e, w1)
           else
             (let w2 = emit (Stderr (SnapshotFailed e)) w1
              in if no_insecure a
                 then (Inl (SystemExit 2), emit (Stderr NoInsecureAbort) w2)
                 else
                   (let w3 = emit (Stderr DefaultIsInsecure) w2;
                        w4 = emit (Stderr ProceedingInsecure) w3
                    in case run_insecure_git_clone env (repo a) (out a) w4 of
                         (Inl e', w5) \<Rightarrow> (Inl e', w5)
                       | (Inr success, w5) \<Rightarrow>
                           (if \<not> success
                            then (Inl (SystemExit 3), emit (Stderr CloneAlsoFailed) w5)
                            else (Inr (), emit (Stdout CloneCompleted) w5))))))"

text \<open>Lines 146 to 163; the six lines of next steps are one message.\<close>

definition report :: "args \<Rightarrow> world \<Rightarrow> int \<times> world" where
  "report a w =
     (let (missing, w1) = check_required_files w;
          w2 = (if missing \<noteq> []
                then emit (Stderr MissingAdvice)
                       (foldl (\<lambda>w' m. emit (Stdout (MissingItem m)) w')
                          (emit (Stdout MissingHeader) w1) missing)
                else emit (Stdout AllFound) w1);
          w3 = print_summary (out a) 40 w2;
          w4 = emit (Stdout (NextSteps (out a))) w3
      in (0, w4))"

definition main :: "args \<Rightarrow> env \<Rightarrow> world \<Rightarrow> (exn + int) \<times> world" where
  "main a env w =
     (let tok = py_or (token a) (py_or (HF_TOKEN env) (HUGGINGFACE_TOKEN env));
          use_symlinks = \<not> no_symlinks a
      in case prepare_destination a w of
           (Inl e, w1) \<Rightarrow> (Inl e, w1)
         | (Inr u, w1) \<Rightarrow>
             (case fetch a env tok use_symlinks w1 of
                (Inl e, w2) \<Rightarrow> (Inl e, w2)
              | (Inr u', w2) \<Rightarrow> (case report a w2 of (v, w3) \<Rightarrow> (Inr v, w3))))"

text \<open>
  \<^verbatim>\<open>sys.exit(main())\<close>: the status of the process is the value returned, the code of
  a \<^verbatim>\<open>SystemExit\<close>, or 1 when another exception leaves \<^verbatim>\<open>main\<close>.
\<close>

fun exit_status :: "exn + int \<Rightarrow> int" where
  "exit_status (Inr v) = v"
| "exit_status (Inl (SystemExit n)) = n"
| "exit_status (Inl e) = 1"

text \<open>A run from a destination, with nothing printed yet.\<close>

definition start :: "dest \<Rightarrow> world" where
  "start d = \<lparr>dest = d, trace = []\<rparr>"

section \<open>Notions used to state the properties\<close>

text \<open>The three requirements, as predicates on the destination.\<close>

definition has_config :: "dest \<Rightarrow> bool" where
  "has_config d = path_exists (child d ''config.json'')"

definition has_weights :: "dest \<Rightarrow> bool" where
  "has_weights d =
     (path_exists (child d ''model.safetensors'') \<or> path_exists (child d ''pytorch_model.bin''))"

definition has_tokenizer :: "dest \<Rightarrow> bool" where
  "has_tokenizer d =
     (path_exists (child d ''tokenizer.json'') \<or> path_exists (child d ''tokenizer_config.json'')
      \<or> path_exists (child d ''sentencepiece.bpe.model'') \<or> path_exists (child d ''vocab.txt''))"

definition has_modules :: "dest \<Rightarrow> bool" where
  "has_modules d = path_exists (child d ''modules.json'')"

text \<open>
  The number of files of a tree: its entries that are not directories, at any depth.
  A destination that is absent or not a directory holds none.
\<close>

fun count_files :: "node \<Rightarrow> nat" where
  "count_files (File st) = 1"
| "count_files (Dir es) = sum_list (map (\<lambda>(name, n). count_files n) es)"

definition dest_files :: "dest \<Rightarrow> nat" where
  "dest_files d = (case d of Some (Dir es) \<Rightarrow> count_files (Dir es) | _ \<Rightarrow> 0)"

text \<open>
  The line that \<^verbatim>\<open>print_summary\<close> prints for each file of an item of the walk, and
  the lines of a whole destination, in the order of the walk.
\<close>

definition item_entries :: "walk_item \<Rightarrow> event list" where
  "item_entries item =
     (case item of (root, dirs, files) \<Rightarrow>
        map (\<lambda>(name, st). Stdout (FileEntry (root @ [name]) (case st of Some n \<Rightarrow> n | None \<Rightarrow> 0))) files)"

definition file_entries :: "dest \<Rightarrow> event list" where
  "file_entries d = concat (map item_entries (walk_dest d))"

fun is_file_entry :: "event \<Rightarrow> bool" where
  "is_file_entry (Stdout (FileEntry rel sz)) = True"
| "is_file_entry e = False"

text \<open>
  What \<^verbatim>\<open>main\<close> hands to the hub client and to \<^verbatim>\<open>git clone\<close>: the token after
  the fallbacks to the environment, the download as \<^verbatim>\<open>main\<close> calls it, and the
  process of the clone command.
\<close>

definition resolved_token :: "args \<Rightarrow> env \<Rightarrow> string option" where
  "resolved_token a env = py_or (token a) (py_or (HF_TOKEN env) (HUGGINGFACE_TOKEN env))"

definition primary_fetch :: "args \<Rightarrow> env \<Rightarrow> dest \<Rightarrow> (string + string) \<times> dest" where
  "primary_fetch a env d =
     snapshot_download env (repo a) (out a) (resolved_token a env) (\<not> no_symlinks a) d"

definition clone_process :: "args \<Rightarrow> env \<Rightarrow> dest \<Rightarrow> launch" where
  "clone_process a env d =
     run_process env (clone_cmd (repo a) (out a)) [(''GIT_SSL_NO_VERIFY'', ''true'')] None d"

text \<open>The destination that the download finds, after lines 121 to 126.\<close>

definition prepared :: "args \<Rightarrow> dest \<Rightarrow> dest" where
  "prepared a d = dest (snd (prepare_destination a (start d)))"

text \<open>
  The list that \<^verbatim>\<open>check_required_files\<close> returns on a destination, and what lines
  146 to 163 print on it.
\<close>

definition missing_items :: "dest \<Rightarrow> string list" where
  "missing_items d = fst (check_required_files (start d))"

definition summary_events :: "string \<Rightarrow> dest \<Rightarrow> event list" where
  "summary_events out_dir d =
     Stdout (SummaryHeader out_dir)
       # (if 40 \<le> length (file_entries d)
          then take 40 (file_entries d) @ [Stdout (ListingTruncated 40)]
          else file_entries d)"

definition report_events :: "args \<Rightarrow> dest \<Rightarrow> event list" where
  "report_events a d =
     (if has_modules d then [] else [Stdout ModulesWarning])
     @ (if missing_items d \<noteq> []
        then Stdout MissingHeader # map (\<lambda>m. Stdout (MissingItem m)) (missing_items d)
               @ [Stderr MissingAdvice]
        else [Stdout AllFound])
     @ summary_events (out a) d
     @ [Stdout (NextSteps (out a))]"

text \<open>
  What a run has printed and called when the clone command has just been started after a
  failed download.
\<close>

definition fallback_prefix :: "args \<Rightarrow> string \<Rightarrow> event list" where
  "fallback_prefix a detail =
     [Stdout (AttemptingSnapshot (repo a) (out a)), Download (repo a) (out a),
      Stderr (SnapshotFailed (HubError detail)), Stderr DefaultIsInsecure,
      Stderr ProceedingInsecure, Stderr InsecureBanner, Stderr AbortIfUnauthorized,
      Stderr (CommandLine (clone_cmd (repo a) (out a))),
      Subprocess (clone_cmd (repo a) (out a))]"

text \<open>A world whose output is preceded by the events \<open>t\<close>.\<close>

definition shift :: "event list \<Rightarrow> world \<Rightarrow> world" where
  "shift t w = w\<lparr>trace := t @ trace w\<rparr>"

section \<open>Concrete runs\<close>

text \<open>
  The command line without options, two hub clients (one that raises and writes nothing,
  one that delivers a lone \<^verbatim>\<open>config.json\<close>), three behaviours of \<^verbatim>\<open>git\<close> and a
  few destinations.
\<close>

definition cli_defaults :: args where
  "cli_defaults =
     \<lparr>repo = ''nomic-ai/nomic-embed-text-v2-moe'', out = ''/work/nomic-embed-text-v2-moe'',
      token = None, no_symlinks = False, force = False, no_insecure = False\<rparr>"

definition config_only :: dest where
  "config_only = Some (Dir [(''config.json'', File (Some 120))])"

definition config_and_weights :: dest where
  "config_and_weights =
     Some (Dir [(''config.json'', File (Some 120)), (''model.safetensors'', File (Some 4096))])"

definition all_but_modules :: dest where
  "all_but_modules =
     Some (Dir [(''config.json'', File (Some 120)), (''pytorch_model.bin'', File (Some 4096)),
                (''vocab.txt'', File (Some 900)), (''onnx'', Dir [(''model.onnx'', File None)])])"

definition existing_model :: dest where
  "existing_model = Some (Dir [(''config.json'', File (Some 120)), (''old.bin'', File (Some 7))])"

definition flat_dir :: "nat \<Rightarrow> dest" where
  "flat_dir k = Some (Dir (map (\<lambda>i. (replicate (Suc i) CHR ''f'', File (Some i))) [0..<k]))"

definition two_level_40 :: dest where
  "two_level_40 =
     Some (Dir [(''a'', File (Some 1)),
                (''sub'', Dir (map (\<lambda>i. (replicate (Suc i) CHR ''g'', File (Some i))) [0..<38])),
                (''z'', File None)])"

definition hub_down :: "string \<Rightarrow> string \<Rightarrow> string option \<Rightarrow> bool \<Rightarrow> dest \<Rightarrow> (string + string) \<times> dest" where
  "hub_down repo_id out_dir tok use_symlinks d = (Inl ''SSLError'', d)"

definition hub_up :: "string \<Rightarrow> string \<Rightarrow> string option \<Rightarrow> bool \<Rightarrow> dest \<Rightarrow> (string + string) \<times> dest" where
  "hub_up repo_id out_dir tok use_symlinks d = (Inr out_dir, config_only)"

definition no_git :: "string list \<Rightarrow> (string \<times> string) list \<Rightarrow> string option \<Rightarrow> dest \<Rightarrow> launch" where
  "no_git cmd extra_env cwd d = NotFound"

definition git_without_lfs ::
  "string list \<Rightarrow> (string \<times> string) list \<Rightarrow> string option \<Rightarrow> dest \<Rightarrow> launch" where
  "git_without_lfs cmd extra_env cwd d =
     (if take 2 cmd = [''git'', ''lfs''] then NotFound else Exited 0 config_only)"

definition env_of ::
  "(string \<Rightarrow> string \<Rightarrow> string option \<Rightarrow> bool \<Rightarrow> dest \<Rightarrow> (string + string) \<times> dest)
   \<Rightarrow> (string list \<Rightarrow> (string \<times> string) list \<Rightarrow> string option \<Rightarrow> dest \<Rightarrow> launch) \<Rightarrow> env" where
  "env_of hub git =
     \<lparr>HF_TOKEN = None, HUGGINGFACE_TOKEN = None, snapshot_download = hub, run_process = git\<rparr>"

section \<open>Basic facts\<close>

lemma dest_emit [simp]: "dest (emit e w) = dest w"
  by (simp add: emit_def)

lemma trace_emit [simp]: "trace (emit e w) = trace w @ [e]"
  by (simp add: emit_def)

lemma print_files_run:
  "count < max_files \<Longrightarrow>
   print_files root files max_files count w =
     (if max_files - count \<le> length files
      then ((True, max_files),
            w\<lparr>trace := trace w @ take (max_files - count) (item_entries (root, dirs, files))
                         @ [Stdout (ListingTruncated max_files)]\<rparr>)
      else ((False, count + length files),
            w\<lparr>trace := trace w @ item_entries (root, dirs, files)\<rparr>))"
proof (induction files arbitrary: count w)
  case Nil
  then show ?case by (simp add: item_entries_def)
next
  case (Cons f files)
  obtain name st where f: "f = (name, st)" by (cases f)
  show ?case
  proof (cases "Suc count < max_files")
    case True
    have "max_files - count = Suc (max_files - Suc count)" using True by arith
    then show ?thesis
      using True Cons.IH [of "Suc count"] f
      by (simp add: item_entries_def emit_def Let_def)
  next
    case False
    with Cons.prems have "max_files = Suc count" by arith
    then show ?thesis using f
      by (simp add: item_entries_def emit_def Let_def)
  qed
qed

lemma print_walk_run:
  "count < max_files \<Longrightarrow>
   print_walk items max_files count w =
     (if max_files - count \<le> length (concat (map item_entries items))
      then w\<lparr>trace := trace w @ take (max_files - count) (concat (map item_entries items))
                         @ [Stdout (ListingTruncated max_files)]\<rparr>
      else w\<lparr>trace := trace w @ concat (map item_entries items)\<rparr>)"
proof (induction items arbitrary: count w)
  case Nil
  then show ?case by simp
next
  case (Cons item items)
  obtain root dirs files where item: "item = (root, dirs, files)" by (cases item)
  have len: "length (item_entries (root, dirs, files)) = length files"
    by (simp add: item_entries_def)
  show ?case
  proof (cases "max_files - count \<le> length files")
    case True
    then show ?thesis
      using Cons.prems item len print_files_run [of count max_files root files w dirs]
      by simp
  next
    case False
    then have lt: "count + length files < max_files" by arith
    show ?thesis
      using False Cons.prems item len print_files_run [of count max_files root files w dirs]
        Cons.IH [OF lt]
      by simp
  qed
qed

lemma print_summary_run:
  "0 < max_files \<Longrightarrow>
   print_summary out_dir max_files w =
     (if max_files \<le> length (file_entries (dest w))
      then w\<lparr>trace := trace w @ [Stdout (SummaryHeader out_dir)]
                 @ take max_files (file_entries (dest w)) @ [Stdout (ListingTruncated max_files)]\<rparr>
      else w\<lparr>trace := trace w @ [Stdout (SummaryHeader out_dir)] @ file_entries (dest w)\<rparr>)"
  using print_walk_run [of 0 max_files "walk_dest (dest w)" "emit (Stdout (SummaryHeader out_dir)) w"]
  by (simp add: print_summary_def file_entries_def emit_def)

lemma nondirs_subdirs_count:
  "length (nondirs es) + sum_list (map (\<lambda>(name, n). count_files n) (subdirs es))
     = sum_list (map (\<lambda>(name, n). count_files n) es)"
proof (induction es)
  case Nil
  then show ?case by (simp add: subdirs_def)
next
  case (Cons e es)
  obtain name n where e: "e = (name, n)" by (cases e)
  show ?case using Cons e by (cases n) (simp_all add: subdirs_def)
qed

lemma length_entries_concat:
  "length (concat (map item_entries (concat xss)))
     = sum_list (map (\<lambda>xs. length (concat (map item_entries xs))) xss)"
  by (induction xss) simp_all

lemma length_os_walk_entries:
  "is_dir n \<Longrightarrow> length (concat (map item_entries (os_walk root n))) = count_files n"
proof (induction root n rule: os_walk.induct)
  case (1 root st)
  then show ?case by simp
next
  case (2 root es)
  have "map (\<lambda>xs. length (concat (map item_entries xs)))
          (map (\<lambda>(name, n). os_walk (root @ [name]) n) (subdirs es))
      = map (\<lambda>(name, n). count_files n) (subdirs es)"
  proof (simp only: map_map, rule map_cong [OF refl])
    fix x assume x: "x \<in> set (subdirs es)"
    obtain name n where xe: "x = (name, n)" by (cases x)
    from x xe have "is_dir n" by (auto simp add: subdirs_def)
    with "2.IH" [OF x xe [symmetric]] xe
    show "((\<lambda>xs. length (concat (map item_entries xs))) \<circ> (\<lambda>(name, n). os_walk (root @ [name]) n)) x
          = (case x of (name, n) \<Rightarrow> count_files n)"
      by simp
  qed
  then have "length (concat (map item_entries
               (concat (map (\<lambda>(name, n). os_walk (root @ [name]) n) (subdirs es)))))
      = sum_list (map (\<lambda>(name, n). count_files n) (subdirs es))"
    by (simp only: length_entries_concat)
  moreover have "length (item_entries (root, map fst (subdirs es), nondirs es)) = length (nondirs es)"
    by (simp add: item_entries_def)
  ultimately show ?case
    using nondirs_subdirs_count [of es] by simp
qed

lemma length_file_entries: "length (file_entries d) = dest_files d"
proof (cases d)
  case None
  then show ?thesis by (simp add: file_entries_def walk_dest_def dest_files_def)
next
  case (Some n)
  then show ?thesis
    using length_os_walk_entries [of n "[]"]
    by (cases n) (simp_all add: file_entries_def walk_dest_def dest_files_def)
qed

section \<open>check_required_files: facts\<close>

lemma check_required_files_missing:
  "fst (check_required_files w) =
     (if has_config (dest w) then [] else [config_label])
     @ (if has_weights (dest w) then [] else [weights_label])
     @ (if has_tokenizer (dest w) then [] else [tokenizer_label])"
  by (simp add: check_required_files_def has_config_def has_weights_def has_tokenizer_def
      tokenizer_names_def Let_def)

lemma check_required_files_world:
  "snd (check_required_files w) =
     (if has_modules (dest w) then w else emit (Stdout ModulesWarning) w)"
  by (simp add: check_required_files_def has_modules_def Let_def)

section \<open>Output is only appended\<close>

lemma dest_shift [simp]: "dest (shift t w) = dest w"
  by (simp add: shift_def)

lemma trace_shift [simp]: "trace (shift t w) = t @ trace w"
  by (simp add: shift_def)

lemma emit_shift [simp]: "emit e (shift t w) = shift t (emit e w)"
  by (simp add: shift_def emit_def)

lemma shift_dest_update [simp]: "(shift t w)\<lparr>dest := d\<rparr> = shift t (w\<lparr>dest := d\<rparr>)"
  by (simp add: shift_def)

lemma start_simps [simp]: "dest (start d) = d" "trace (start d) = []"
  by (simp_all add: start_def)

lemma world_eq: "(w :: world) = w' \<longleftrightarrow> dest w = dest w' \<and> trace w = trace w'"
  by (cases w, cases w') auto

lemma world_updates: "(w :: world)\<lparr>trace := t, dest := d\<rparr> = \<lparr>dest = d, trace = t\<rparr>"
  by (cases w) simp

lemma foldl_emit_trace:
  "trace (foldl (\<lambda>w' m. emit (f m) w') w ms) = trace w @ map f ms"
  by (induction ms arbitrary: w) simp_all

lemma foldl_emit_dest:
  "dest (foldl (\<lambda>w' m. emit (f m) w') w ms) = dest w"
  by (induction ms arbitrary: w) simp_all

lemma foldl_emit_shift:
  "foldl (\<lambda>w' m. emit (f m) w') (shift t w) ms = shift t (foldl (\<lambda>w' m. emit (f m) w') w ms)"
  by (induction ms arbitrary: w) simp_all

lemma missing_items_eq: "fst (check_required_files w) = missing_items (dest w)"
  by (simp add: missing_items_def check_required_files_missing)

lemma print_summary_40:
  "print_summary out_dir 40 w = w\<lparr>trace := trace w @ summary_events out_dir (dest w)\<rparr>"
  by (simp add: print_summary_run summary_events_def)

lemma report_result:
  "report a w = (0, w\<lparr>trace := trace w @ report_events a (dest w)\<rparr>)"
proof -
  obtain missing w1 where c: "check_required_files w = (missing, w1)"
    by (cases "check_required_files w")
  from c have m: "missing = missing_items (dest w)"
    using missing_items_eq [of w] by simp
  from c have w1: "w1 = (if has_modules (dest w) then w else emit (Stdout ModulesWarning) w)"
    using check_required_files_world [of w] by simp
  show ?thesis
    by (simp add: report_def c m w1 print_summary_40 report_events_def world_eq
        foldl_emit_trace foldl_emit_dest)
qed

lemma check_required_files_shift:
  "check_required_files (shift t w) = apsnd (shift t) (check_required_files w)"
  by (simp add: check_required_files_def Let_def)

lemma print_summary_shift:
  "print_summary out_dir 40 (shift t w) = shift t (print_summary out_dir 40 w)"
  by (simp add: print_summary_run shift_def)

lemma report_shift: "report a (shift t w) = apsnd (shift t) (report a w)"
  by (auto simp add: report_def check_required_files_shift print_summary_shift foldl_emit_shift
      Let_def split: prod.splits)

lemma run_snapshot_download_shift:
  "run_snapshot_download env r od tok us (shift t w)
     = apsnd (shift t) (run_snapshot_download env r od tok us w)"
  by (auto simp add: run_snapshot_download_def Let_def split: prod.splits sum.splits)

lemma subprocess_run_shift:
  "subprocess_run env cmd check ee cwd (shift t w)
     = apsnd (shift t) (subprocess_run env cmd check ee cwd w)"
  by (auto simp add: subprocess_run_def Let_def split: launch.splits)

lemma lfs_pull_shift: "lfs_pull env od (shift t w) = apsnd (shift t) (lfs_pull env od w)"
  by (auto simp add: lfs_pull_def subprocess_run_shift Let_def
      split: prod.splits sum.splits exn.splits)

lemma run_insecure_git_clone_shift:
  "run_insecure_git_clone env r od (shift t w)
     = apsnd (shift t) (run_insecure_git_clone env r od w)"
  by (auto simp add: run_insecure_git_clone_def subprocess_run_shift lfs_pull_shift Let_def
      split: prod.splits sum.splits exn.splits)

lemma fetch_shift:
  "fetch a env tok us (shift t w) = apsnd (shift t) (fetch a env tok us w)"
  by (auto simp add: fetch_def run_snapshot_download_shift run_insecure_git_clone_shift Let_def
      split: prod.splits sum.splits)

section \<open>The report\<close>

lemma file_entries_are_entries: "e \<in> set (file_entries d) \<Longrightarrow> is_file_entry e"
  by (auto simp add: file_entries_def item_entries_def)

lemma summary_events_stdout:
  "e \<in> set (summary_events od d) \<Longrightarrow>
   e = Stdout (SummaryHeader od) \<or> e = Stdout (ListingTruncated 40) \<or> is_file_entry e"
  by (auto simp add: summary_events_def dest: in_set_takeD file_entries_are_entries
      split: if_splits)

lemma no_subprocess_in_report: "Subprocess cmd \<notin> set (report_events a d)"
  by (auto simp add: report_events_def dest: summary_events_stdout)

lemma all_found_in_report:
  "Stdout AllFound \<in> set (report_events a d) \<longleftrightarrow> missing_items d = []"
  by (auto simp add: report_events_def dest: summary_events_stdout)

lemma missing_in_report:
  "m \<in> set (missing_items d) \<Longrightarrow> Stdout (MissingItem m) \<in> set (report_events a d)"
  by (auto simp add: report_events_def)

section \<open>The cases of a run\<close>

lemma prepare_absent:
  "\<not> path_exists (dest w) \<Longrightarrow> prepare_destination a w = (Inr (), w)"
  by (simp add: prepare_destination_def)

lemma prepare_keep:
  "path_exists (dest w) \<Longrightarrow> \<not> force a \<Longrightarrow>
   prepare_destination a w = (Inr (), emit (Stdout (AlreadyExists (out a))) w)"
  by (simp add: prepare_destination_def)

lemma prepare_force_dir:
  "dest w = Some (Dir es) \<Longrightarrow> force a \<Longrightarrow>
   prepare_destination a w = (Inr (), (emit (Stdout (RemovingExisting (out a))) w)\<lparr>dest := None\<rparr>)"
  by (simp add: prepare_destination_def path_exists_def rmtree_def)

lemma prepare_force_file:
  "dest w = Some (File (Some n)) \<Longrightarrow> force a \<Longrightarrow>
   prepare_destination a w = (Inl NotADirectoryError, emit (Stdout (RemovingExisting (out a))) w)"
  by (simp add: prepare_destination_def path_exists_def rmtree_def)

lemma prepare_cases:
  "prepare_destination a w = (Inr (), w\<lparr>trace := trace (snd (prepare_destination a w))\<rparr>)
   \<or> prepare_destination a w = (Inr (), \<lparr>dest = None, trace = trace w @ [Stdout (RemovingExisting (out a))]\<rparr>)
      \<and> force a \<and> (\<exists>es. dest w = Some (Dir es))
   \<or> prepare_destination a w = (Inl NotADirectoryError, emit (Stdout (RemovingExisting (out a))) w)"
  by (auto simp add: prepare_destination_def path_exists_def rmtree_def emit_def
      split: option.splits node.splits)

lemma prepare_trace:
  "prepare_destination a (start d) = (r, w1) \<Longrightarrow> Subprocess cmd \<notin> set (trace w1)"
  using prepare_cases [of a "start d"]
  by (auto simp add: prepare_destination_def rmtree_def split: if_splits option.splits node.splits)

lemma prepared_eq:
  "fst (prepare_destination a (start d)) = Inr () \<Longrightarrow>
   prepared a d = (if force a \<and> path_exists d then None else d)"
  by (auto simp add: prepared_def prepare_destination_def rmtree_def path_exists_def
      split: if_splits option.splits node.splits)

lemma fetch_primary_ok:
  "primary_fetch a env (dest w) = (Inr p, d') \<Longrightarrow>
   fetch a env (resolved_token a env) (\<not> no_symlinks a) w =
     (Inr (), \<lparr>dest = d', trace = trace w @
        [Stdout (AttemptingSnapshot (repo a) (out a)), Download (repo a) (out a),
         Stdout (DownloadFinished p)]\<rparr>)"
  by (simp add: fetch_def run_snapshot_download_def primary_fetch_def Let_def emit_def)

lemma fetch_no_insecure:
  "primary_fetch a env (dest w) = (Inl detail, d') \<Longrightarrow> no_insecure a \<Longrightarrow>
   fetch a env (resolved_token a env) (\<not> no_symlinks a) w =
     (Inl (SystemExit 2), \<lparr>dest = d', trace = trace w @
        [Stdout (AttemptingSnapshot (repo a) (out a)), Download (repo a) (out a),
         Stderr (SnapshotFailed (HubError detail)), Stderr NoInsecureAbort]\<rparr>)"
  by (simp add: fetch_def run_snapshot_download_def primary_fetch_def Let_def emit_def)

lemma fetch_fallback:
  "primary_fetch a env (dest w) = (Inl detail, d') \<Longrightarrow> \<not> no_insecure a \<Longrightarrow>
   fetch a env (resolved_token a env) (\<not> no_symlinks a) w =
     (case clone_process a env d' of
        NotFound \<Rightarrow>
          (Inl FileNotFoundError, \<lparr>dest = d', trace = trace w @ fallback_prefix a detail\<rparr>)
      | Exited rc d'' \<Rightarrow>
          (if rc \<noteq> 0
           then (Inl (SystemExit 3), \<lparr>dest = d'', trace = trace w @ fallback_prefix a detail @
                   [Stderr (CloneFailed (CalledProcessError rc)), Stderr CloneAlsoFailed]\<rparr>)
           else (case lfs_pull env (out a) \<lparr>dest = d'', trace = trace w @ fallback_prefix a detail\<rparr> of
                   (Inl e, w5) \<Rightarrow> (Inl e, w5)
                 | (Inr success, w5) \<Rightarrow>
                     (if \<not> success then (Inl (SystemExit 3), emit (Stderr CloneAlsoFailed) w5)
                      else (Inr (), emit (Stdout CloneCompleted) w5)))))"
  by (simp add: fetch_def run_snapshot_download_def primary_fetch_def Let_def emit_def
      run_insecure_git_clone_def subprocess_run_def clone_process_def fallback_prefix_def
      world_updates split: launch.splits)

lemma lfs_pull_result:
  "fst (lfs_pull env od w) = Inr True \<and> (\<exists>t. trace (snd (lfs_pull env od w)) = trace w @ t)"
  by (auto simp add: lfs_pull_def subprocess_run_def Let_def emit_def split: launch.splits)

lemma main_unfold:
  "main a env w =
     (case prepare_destination a w of
        (Inl e, w1) \<Rightarrow> (Inl e, w1)
      | (Inr u, w1) \<Rightarrow>
          (case fetch a env (resolved_token a env) (\<not> no_symlinks a) w1 of
             (Inl e, w2) \<Rightarrow> (Inl e, w2)
           | (Inr u', w2) \<Rightarrow> (Inr 0, w2\<lparr>trace := trace w2 @ report_events a (dest w2)\<rparr>)))"
  by (auto simp add: main_def resolved_token_def report_result Let_def
      split: prod.splits sum.splits)

lemma main_prepare_raises:
  "prepare_destination a w = (Inl e, w1) \<Longrightarrow> main a env w = (Inl e, w1)"
  by (simp add: main_unfold)

lemma main_primary_ok:
  "prepare_destination a w = (Inr (), w1) \<Longrightarrow> primary_fetch a env (dest w1) = (Inr p, d') \<Longrightarrow>
   main a env w =
     (Inr 0, \<lparr>dest = d', trace = trace w1 @
        [Stdout (AttemptingSnapshot (repo a) (out a)), Download (repo a) (out a),
         Stdout (DownloadFinished p)] @ report_events a d'\<rparr>)"
  by (simp add: main_unfold fetch_primary_ok)

lemma main_no_insecure:
  "prepare_destination a w = (Inr (), w1) \<Longrightarrow> primary_fetch a env (dest w1) = (Inl detail, d')
   \<Longrightarrow> no_insecure a \<Longrightarrow>
   main a env w =
     (Inl (SystemExit 2), \<lparr>dest = d', trace = trace w1 @
        [Stdout (AttemptingSnapshot (repo a) (out a)), Download (repo a) (out a),
         Stderr (SnapshotFailed (HubError detail)), Stderr NoInsecureAbort]\<rparr>)"
  by (simp add: main_unfold fetch_no_insecure)

lemma main_clone_not_found:
  "prepare_destination a w = (Inr (), w1) \<Longrightarrow> primary_fetch a env (dest w1) = (Inl detail, d')
   \<Longrightarrow> \<not> no_insecure a \<Longrightarrow> clone_process a env d' = NotFound \<Longrightarrow>
   main a env w =
     (Inl FileNotFoundError, \<lparr>dest = d', trace = trace w1 @ fallback_prefix a detail\<rparr>)"
  by (simp add: main_unfold fetch_fallback)

lemma main_clone_nonzero:
  "prepare_destination a w = (Inr (), w1) \<Longrightarrow> primary_fetch a env (dest w1) = (Inl detail, d')
   \<Longrightarrow> \<not> no_insecure a \<Longrightarrow> clone_process a env d' = Exited rc d'' \<Longrightarrow> rc \<noteq> 0 \<Longrightarrow>
   main a env w =
     (Inl (SystemExit 3), \<lparr>dest = d'', trace = trace w1 @ fallback_prefix a detail @
        [Stderr (CloneFailed (CalledProcessError rc)), Stderr CloneAlsoFailed]\<rparr>)"
  by (simp add: main_unfold fetch_fallback)

lemma main_clone_ok:
  assumes "prepare_destination a w = (Inr (), w1)"
    and "primary_fetch a env (dest w1) = (Inl detail, d')"
    and "\<not> no_insecure a"
    and "clone_process a env d' = Exited 0 d''"
  shows "\<exists>t d3. main a env w =
     (Inr 0, \<lparr>dest = d3, trace = trace w1 @ fallback_prefix a detail @ t
        @ [Stdout CloneCompleted] @ report_events a d3\<rparr>)"
proof -
  let ?w4 = "\<lparr>dest = d'', trace = trace w1 @ fallback_prefix a detail\<rparr>"
  obtain r w5 where l: "lfs_pull env (out a) ?w4 = (r, w5)"
    by (cases "lfs_pull env (out a) ?w4")
  from lfs_pull_result [of env "out a" ?w4] l
  obtain t where r: "r = Inr True" and t: "trace w5 = trace w1 @ fallback_prefix a detail @ t"
    by auto
  have "main a env w =
     (Inr 0, \<lparr>dest = dest w5, trace = trace w1 @ fallback_prefix a detail @ t
        @ [Stdout CloneCompleted] @ report_events a (dest w5)\<rparr>)"
    using assms l r t by (simp add: main_unfold fetch_fallback world_eq)
  then show ?thesis by blast
qed

lemma main_trace_start:
  assumes p: "prepare_destination a w = (Inr (), w1)"
  shows "\<exists>t. trace (snd (main a env w)) =
           trace w1 @ [Stdout (AttemptingSnapshot (repo a) (out a)), Download (repo a) (out a)] @ t"
proof -
  obtain res d' where f: "primary_fetch a env (dest w1) = (res, d')"
    by (cases "primary_fetch a env (dest w1)")
  show ?thesis
  proof (cases res)
    case (Inr path)
    with f p show ?thesis by (simp add: main_primary_ok)
  next
    case (Inl detail)
    note f' = f [unfolded Inl]
    show ?thesis
    proof (cases "no_insecure a")
      case True
      with f' p show ?thesis by (simp add: main_no_insecure)
    next
      case False
      show ?thesis
      proof (cases "clone_process a env d'")
        case NotFound
        with False f' p show ?thesis
          by (simp add: main_clone_not_found fallback_prefix_def)
      next
        case (Exited rc d'')
        show ?thesis
        proof (cases "rc = 0")
          case True
          from main_clone_ok [OF p f' False Exited [unfolded True]]
          obtain t d3 where "main a env w =
             (Inr 0, \<lparr>dest = d3, trace = trace w1 @ fallback_prefix a detail @ t
                @ [Stdout CloneCompleted] @ report_events a d3\<rparr>)" by blast
          then show ?thesis by (simp add: fallback_prefix_def)
        next
          case nz: False
          with False f' p Exited show ?thesis
            by (simp add: main_clone_nonzero fallback_prefix_def)
        qed
      qed
    qed
  qed
qed

lemma subprocess_in_fallback_prefix:
  "Subprocess cmd \<in> set (fallback_prefix a detail) \<longleftrightarrow> cmd = clone_cmd (repo a) (out a)"
  by (auto simp add: fallback_prefix_def)

lemma fallback_run_iff:
  "Subprocess (clone_cmd (repo a) (out a)) \<in> set (trace (snd (main a env (start d))))
   \<longleftrightarrow> fst (prepare_destination a (start d)) = Inr ()
       \<and> (\<exists>detail d'. primary_fetch a env (prepared a d) = (Inl detail, d'))
       \<and> \<not> no_insecure a"
proof -
  obtain r w1 where p: "prepare_destination a (start d) = (r, w1)"
    by (cases "prepare_destination a (start d)")
  note nt = prepare_trace [OF p]
  show ?thesis
  proof (cases r)
    case (Inl e)
    with p nt show ?thesis by (simp add: main_prepare_raises)
  next
    case (Inr u)
    with p have p': "prepare_destination a (start d) = (Inr (), w1)" by simp
    have d1: "prepared a d = dest w1" using p' by (simp add: prepared_def)
    obtain res d' where f: "primary_fetch a env (dest w1) = (res, d')"
      by (cases "primary_fetch a env (dest w1)")
    show ?thesis
    proof (cases res)
      case (Inr path)
      with f p' nt show ?thesis
        by (simp add: main_primary_ok d1 no_subprocess_in_report)
    next
      case (Inl detail)
      note f' = f [unfolded Inl]
      show ?thesis
      proof (cases "no_insecure a")
        case True
        with f' p' nt show ?thesis by (simp add: main_no_insecure d1)
      next
        case False
        show ?thesis
        proof (cases "clone_process a env d'")
          case NotFound
          with False f' p' show ?thesis
            by (simp add: main_clone_not_found d1 subprocess_in_fallback_prefix)
        next
          case (Exited rc d'')
          show ?thesis
          proof (cases "rc = 0")
            case True
            from main_clone_ok [OF p' f' False Exited [unfolded True]]
            obtain t d3 where "main a env (start d) =
               (Inr 0, \<lparr>dest = d3, trace = trace w1 @ fallback_prefix a detail @ t
                  @ [Stdout CloneCompleted] @ report_events a d3\<rparr>)" by blast
            with False f' p' show ?thesis
              by (simp add: d1 subprocess_in_fallback_prefix)
          next
            case nz: False
            with False f' p' Exited show ?thesis
              by (simp add: main_clone_nonzero d1 subprocess_in_fallback_prefix)
          qed
        qed
      qed
    qed
  qed
qed

lemma no_subprocess_without_fallback:
  assumes "Subprocess cmd \<in> set (trace (snd (main a env (start d))))"
  shows "Subprocess (clone_cmd (repo a) (out a)) \<in> set (trace (snd (main a env (start d))))"
proof (rule ccontr)
  assume n: "\<not> ?thesis"
  obtain r w1 where p: "prepare_destination a (start d) = (r, w1)"
    by (cases "prepare_destination a (start d)")
  note nt = prepare_trace [OF p]
  show False
  proof (cases r)
    case (Inl e)
    with p nt assms show False by (simp add: main_prepare_raises)
  next
    case (Inr u)
    with p have p': "prepare_destination a (start d) = (Inr (), w1)" by simp
    have d1: "prepared a d = dest w1" using p' by (simp add: prepared_def)
    obtain res d' where f: "primary_fetch a env (dest w1) = (res, d')"
      by (cases "primary_fetch a env (dest w1)")
    show False
    proof (cases res)
      case (Inr path)
      with f p' nt assms show False
        by (simp add: main_primary_ok no_subprocess_in_report)
    next
      case (Inl detail)
      note f' = f [unfolded Inl]
      show False
      proof (cases "no_insecure a")
        case True
        with f' p' nt assms show False by (simp add: main_no_insecure)
      next
        case False
        with n f' p' show False
          by (auto simp add: fallback_run_iff d1)
      qed
    qed
  qed
qed

section \<open>The claims\<close>

subsection \<open>C1: the exit status and the fallback policy table\<close>

text \<open>
  When the destination preparation has not raised, the rows of the table hold as far as
  \<^verbatim>\<open>git clone\<close> is started: a download that succeeds gives status 0, a failed
  download under \<^verbatim>\<open>--no-insecure\<close> gives status 2 with no subprocess run, and a
  clone command that exits with a return code other than 0 gives status 3.
\<close>

lemma exit_status_policy:
  assumes "prepare_destination a (start d) = (Inr (), w1)"
  shows "primary_fetch a env (dest w1) = (Inr p, d') \<Longrightarrow>
           exit_status (fst (main a env (start d))) = 0"
    and "primary_fetch a env (dest w1) = (Inl detail, d') \<Longrightarrow> no_insecure a \<Longrightarrow>
           exit_status (fst (main a env (start d))) = 2
           \<and> Subprocess cmd \<notin> set (trace (snd (main a env (start d))))"
    and "primary_fetch a env (dest w1) = (Inl detail, d') \<Longrightarrow> \<not> no_insecure a \<Longrightarrow>
         clone_process a env d' = Exited rc d'' \<Longrightarrow> rc \<noteq> 0 \<Longrightarrow>
           exit_status (fst (main a env (start d))) = 3"
  using assms prepare_trace [OF assms, of cmd]
  by (simp_all add: main_primary_ok main_no_insecure main_clone_nonzero)

text \<open>
  C1 says that the process exits with status 3 whenever the download fails, the fallback
  is allowed and the clone step fails. The clone step also fails when \<^verbatim>\<open>git\<close>
  cannot be started: \<^verbatim>\<open>subprocess.run\<close> then raises \<^verbatim>\<open>FileNotFoundError\<close>, which
  the handler of line 101 (\<^verbatim>\<open>except subprocess.CalledProcessError\<close>) does not catch,
  although the handler of line 110 catches it for the two \<^verbatim>\<open>git lfs\<close> commands. On
  the default command line, with a hub client that raises and no \<^verbatim>\<open>git\<close>
  executable, the exception leaves \<^verbatim>\<open>run_insecure_git_clone\<close> and \<^verbatim>\<open>main\<close>, and
  the status of the process is 1, not 3.
\<close>

theorem clone_launch_failure_escapes:
  "main cli_defaults (env_of hub_down no_git) (start None) =
     (Inl FileNotFoundError,
      \<lparr>dest = None, trace = fallback_prefix cli_defaults ''SSLError''\<rparr>)
   \<and> exit_status (fst (main cli_defaults (env_of hub_down no_git) (start None))) = 1"
proof -
  have p: "prepare_destination cli_defaults (start None) = (Inr (), start None)"
    by (simp add: prepare_absent path_exists_def)
  have f: "primary_fetch cli_defaults (env_of hub_down no_git) (dest (start None))
             = (Inl ''SSLError'', None)"
    by (simp add: primary_fetch_def env_of_def hub_down_def)
  have n: "\<not> no_insecure cli_defaults" by (simp add: cli_defaults_def)
  have c: "clone_process cli_defaults (env_of hub_down no_git) None = NotFound"
    by (simp add: clone_process_def env_of_def no_git_def)
  show ?thesis
    using main_clone_not_found [OF p f n c] by simp
qed

subsection \<open>C2: the fallback runs only after a failed download\<close>

text \<open>
  C2: the insecure \<^verbatim>\<open>git clone\<close> is started in a run if and only if the download
  was made, failed, and \<^verbatim>\<open>--no-insecure\<close> is not set; and in every run whose download
  succeeds no subprocess is started at all.
\<close>

theorem fallback_only_after_failed_primary:
  "(Subprocess (clone_cmd (repo a) (out a)) \<in> set (trace (snd (main a env (start d))))
      \<longleftrightarrow> fst (prepare_destination a (start d)) = Inr ()
          \<and> (\<exists>detail d'. primary_fetch a env (prepared a d) = (Inl detail, d'))
          \<and> \<not> no_insecure a)
   \<and> (\<forall>p d'. fst (prepare_destination a (start d)) = Inr ()
          \<and> primary_fetch a env (prepared a d) = (Inr p, d')
          \<longrightarrow> (\<forall>cmd. Subprocess cmd \<notin> set (trace (snd (main a env (start d))))))"
proof (intro conjI allI impI)
  show "Subprocess (clone_cmd (repo a) (out a)) \<in> set (trace (snd (main a env (start d))))
      \<longleftrightarrow> fst (prepare_destination a (start d)) = Inr ()
          \<and> (\<exists>detail d'. primary_fetch a env (prepared a d) = (Inl detail, d'))
          \<and> \<not> no_insecure a"
    by (rule fallback_run_iff)
next
  fix p d' cmd
  assume h: "fst (prepare_destination a (start d)) = Inr ()
          \<and> primary_fetch a env (prepared a d) = (Inr p, d')"
  show "Subprocess cmd \<notin> set (trace (snd (main a env (start d))))"
  proof
    assume "Subprocess cmd \<in> set (trace (snd (main a env (start d))))"
    then have "Subprocess (clone_cmd (repo a) (out a)) \<in> set (trace (snd (main a env (start d))))"
      by (rule no_subprocess_without_fallback)
    with h show False by (simp add: fallback_run_iff)
  qed
qed

theorem fallback_only_after_failed_primary_witness:
  "fst (prepare_destination cli_defaults (start None)) = Inr ()
   \<and> primary_fetch cli_defaults (env_of hub_up no_git) (prepared cli_defaults None)
       = (Inr ''/work/nomic-embed-text-v2-moe'', config_only)
   \<and> Subprocess [''git'', ''lfs'', ''pull'']
       \<notin> set (trace (snd (main cli_defaults (env_of hub_up no_git) (start None))))
   \<and> Subprocess (clone_cmd (repo cli_defaults) (out cli_defaults))
       \<notin> set (trace (snd (main cli_defaults (env_of hub_up no_git) (start None))))
   \<and> Subprocess (clone_cmd (repo cli_defaults) (out cli_defaults))
       \<in> set (trace (snd (main cli_defaults (env_of hub_down no_git) (start None))))"
proof -
  have p: "fst (prepare_destination cli_defaults (start None)) = Inr ()"
    by (simp add: prepare_absent path_exists_def)
  have d: "prepared cli_defaults None = None"
    by (simp add: prepared_def prepare_absent path_exists_def)
  have up: "primary_fetch cli_defaults (env_of hub_up no_git) None
       = (Inr ''/work/nomic-embed-text-v2-moe'', config_only)"
    by (simp add: primary_fetch_def env_of_def hub_up_def cli_defaults_def)
  have down: "primary_fetch cli_defaults (env_of hub_down no_git) None = (Inl ''SSLError'', None)"
    by (simp add: primary_fetch_def env_of_def hub_down_def)
  have n: "\<not> no_insecure cli_defaults" by (simp add: cli_defaults_def)
  show ?thesis
    using fallback_only_after_failed_primary [of cli_defaults "env_of hub_up no_git" None]
      fallback_only_after_failed_primary [of cli_defaults "env_of hub_down no_git" None]
      p d up down n
    by simp
qed

subsection \<open>C3: the completeness check\<close>

text \<open>
  C3: \<^verbatim>\<open>check_required_files\<close> returns the empty list if and only if the root of
  the destination has \<^verbatim>\<open>config.json\<close>, one of the two weights files and one of the
  four tokenizer files (in the sense of \<^verbatim>\<open>Path.exists\<close>); otherwise it returns
  exactly the labels of the requirements that are not met, in the order config, weights,
  tokenizer. The witness is the example of the specification: a destination with only a
  config file and a weights file.
\<close>

theorem check_required_files_complete:
  "(fst (check_required_files w) = []
      \<longleftrightarrow> has_config (dest w) \<and> has_weights (dest w) \<and> has_tokenizer (dest w))
   \<and> fst (check_required_files w) =
       (if has_config (dest w) then [] else [config_label])
       @ (if has_weights (dest w) then [] else [weights_label])
       @ (if has_tokenizer (dest w) then [] else [tokenizer_label])"
  by (simp add: check_required_files_missing)

theorem check_required_files_complete_witness:
  "has_config config_and_weights \<and> has_weights config_and_weights
   \<and> \<not> has_tokenizer config_and_weights
   \<and> fst (check_required_files (start config_and_weights)) =
       [''tokenizer.json or tokenizer_config.json or sentencepiece.bpe.model or vocab.txt'']
   \<and> fst (check_required_files (start all_but_modules)) = []"
proof -
  have a: "has_config config_and_weights" "has_weights config_and_weights"
    "\<not> has_tokenizer config_and_weights"
    by (simp_all add: has_config_def has_weights_def has_tokenizer_def config_and_weights_def
        child_def path_exists_def)
  have b: "has_config all_but_modules" "has_weights all_but_modules"
    "has_tokenizer all_but_modules"
    by (simp_all add: has_config_def has_weights_def has_tokenizer_def all_but_modules_def
        child_def path_exists_def)
  show ?thesis
    using check_required_files_complete [of "start config_and_weights"]
      check_required_files_complete [of "start all_but_modules"] a b
    by (simp add: tokenizer_label_def)
qed

subsection \<open>C4: a failed download with the fallback disabled\<close>

text \<open>
  C4, as amended: when the download fails and \<^verbatim>\<open>--no-insecure\<close> is set, the process
  exits with status 2, no subprocess is run, and the destination is left as the failed
  download left it; the download found the original destination unless \<^verbatim>\<open>--force\<close>
  had removed an existing one. So the destination is unchanged when the failed download
  wrote nothing and \<^verbatim>\<open>--force\<close> did not apply.
\<close>

theorem no_insecure_abort:
  assumes "fst (prepare_destination a (start d)) = Inr ()"
    and "primary_fetch a env (prepared a d) = (Inl detail, d')"
    and "no_insecure a"
  shows "exit_status (fst (main a env (start d))) = 2
         \<and> dest (snd (main a env (start d))) = d'
         \<and> prepared a d = (if force a \<and> path_exists d then None else d)
         \<and> (\<forall>cmd. Subprocess cmd \<notin> set (trace (snd (main a env (start d)))))"
proof -
  obtain w1 where p: "prepare_destination a (start d) = (Inr (), w1)"
    using assms(1) by (cases "prepare_destination a (start d)") simp
  have d1: "prepared a d = dest w1" using p by (simp add: prepared_def)
  have f: "primary_fetch a env (dest w1) = (Inl detail, d')"
    using assms(2) d1 by simp
  show ?thesis
    using main_no_insecure [OF p f assms(3)] prepare_trace [OF p] prepared_eq [OF assms(1)]
    by simp
qed

theorem no_insecure_abort_witness:
  "fst (prepare_destination (cli_defaults\<lparr>no_insecure := True\<rparr>) (start existing_model)) = Inr ()
   \<and> primary_fetch (cli_defaults\<lparr>no_insecure := True\<rparr>) (env_of hub_down no_git)
        (prepared (cli_defaults\<lparr>no_insecure := True\<rparr>) existing_model)
       = (Inl ''SSLError'', existing_model)
   \<and> exit_status (fst (main (cli_defaults\<lparr>no_insecure := True\<rparr>) (env_of hub_down no_git)
          (start existing_model))) = 2
   \<and> dest (snd (main (cli_defaults\<lparr>no_insecure := True\<rparr>) (env_of hub_down no_git)
          (start existing_model))) = existing_model"
proof -
  let ?a = "cli_defaults\<lparr>no_insecure := True\<rparr>"
  have e: "path_exists (dest (start existing_model))"
    by (simp add: existing_model_def path_exists_def)
  have nf: "\<not> force ?a" by (simp add: cli_defaults_def)
  have p: "fst (prepare_destination ?a (start existing_model)) = Inr ()"
    using prepare_keep [OF e nf] by simp
  have d: "prepared ?a existing_model = existing_model"
    using prepare_keep [OF e nf] by (simp add: prepared_def)
  have f: "primary_fetch ?a (env_of hub_down no_git) (prepared ?a existing_model)
             = (Inl ''SSLError'', existing_model)"
    by (simp add: d primary_fetch_def env_of_def hub_down_def)
  have n: "no_insecure ?a" by simp
  show ?thesis
    using no_insecure_abort [OF p f n] p f by simp
qed

text \<open>
  As stated, without the condition on \<^verbatim>\<open>--force\<close>, C4 fails: with \<^verbatim>\<open>--force\<close>
  and \<^verbatim>\<open>--no-insecure\<close>, an existing directory and a hub client that raises without
  writing, the process exits with status 2 and the directory is gone.
\<close>

theorem no_insecure_abort_counterexample:
  "fst (prepare_destination (cli_defaults\<lparr>force := True, no_insecure := True\<rparr>)
          (start existing_model)) = Inr ()
   \<and> primary_fetch (cli_defaults\<lparr>force := True, no_insecure := True\<rparr>) (env_of hub_down no_git)
        (prepared (cli_defaults\<lparr>force := True, no_insecure := True\<rparr>) existing_model)
       = (Inl ''SSLError'', None)
   \<and> no_insecure (cli_defaults\<lparr>force := True, no_insecure := True\<rparr>)
   \<and> exit_status (fst (main (cli_defaults\<lparr>force := True, no_insecure := True\<rparr>)
          (env_of hub_down no_git) (start existing_model))) = 2
   \<and> dest (snd (main (cli_defaults\<lparr>force := True, no_insecure := True\<rparr>)
          (env_of hub_down no_git) (start existing_model))) \<noteq> existing_model"
proof -
  let ?a = "cli_defaults\<lparr>force := True, no_insecure := True\<rparr>"
  have p: "prepare_destination ?a (start existing_model)
             = (Inr (), (emit (Stdout (RemovingExisting (out ?a))) (start existing_model))\<lparr>dest := None\<rparr>)"
    by (rule prepare_force_dir) (simp_all add: existing_model_def)
  have d: "prepared ?a existing_model = None"
    by (simp add: prepared_def p)
  have f: "primary_fetch ?a (env_of hub_down no_git) None = (Inl ''SSLError'', None)"
    by (simp add: primary_fetch_def env_of_def hub_down_def)
  have m: "main ?a (env_of hub_down no_git) (start existing_model) =
     (Inl (SystemExit 2), \<lparr>dest = None, trace = [Stdout (RemovingExisting (out ?a))] @
        [Stdout (AttemptingSnapshot (repo ?a) (out ?a)), Download (repo ?a) (out ?a),
         Stderr (SnapshotFailed (HubError ''SSLError'')), Stderr NoInsecureAbort]\<rparr>)"
    using main_no_insecure [OF p, of "env_of hub_down no_git" "''SSLError''" None] f
    by simp
  show ?thesis
    using p d f m by (simp add: existing_model_def)
qed

subsection \<open>C5: missing files are never fatal\<close>

text \<open>
  C5: in every run whose download succeeds, or whose download fails and whose allowed
  clone command exits with 0, \<^verbatim>\<open>main\<close> returns 0 and the process exits with status
  0, whatever the completeness check finds; every missing item is printed.
\<close>

theorem completeness_gaps_not_fatal:
  assumes "fst (prepare_destination a (start d)) = Inr ()"
    and "(\<exists>p d'. primary_fetch a env (prepared a d) = (Inr p, d'))
         \<or> (\<exists>detail d' d''. primary_fetch a env (prepared a d) = (Inl detail, d')
               \<and> \<not> no_insecure a \<and> clone_process a env d' = Exited 0 d'')"
  shows "fst (main a env (start d)) = Inr 0
         \<and> exit_status (fst (main a env (start d))) = 0
         \<and> (\<forall>m. m \<in> set (missing_items (dest (snd (main a env (start d)))))
               \<longrightarrow> Stdout (MissingItem m) \<in> set (trace (snd (main a env (start d)))))"
proof -
  obtain w1 where p: "prepare_destination a (start d) = (Inr (), w1)"
    using assms(1) by (cases "prepare_destination a (start d)") simp
  have d1: "prepared a d = dest w1" using p by (simp add: prepared_def)
  from assms(2) show ?thesis
  proof
    assume "\<exists>p d'. primary_fetch a env (prepared a d) = (Inr p, d')"
    then obtain path d' where "primary_fetch a env (dest w1) = (Inr path, d')"
      using d1 by auto
    from main_primary_ok [OF p this] show ?thesis
      by (simp add: missing_in_report)
  next
    assume "\<exists>detail d' d''. primary_fetch a env (prepared a d) = (Inl detail, d')
               \<and> \<not> no_insecure a \<and> clone_process a env d' = Exited 0 d''"
    then obtain detail d' d'' where f: "primary_fetch a env (dest w1) = (Inl detail, d')"
      and n: "\<not> no_insecure a" and c: "clone_process a env d' = Exited 0 d''"
      using d1 by auto
    from main_clone_ok [OF p f n c] obtain t d3 where "main a env (start d) =
       (Inr 0, \<lparr>dest = d3, trace = trace w1 @ fallback_prefix a detail @ t
          @ [Stdout CloneCompleted] @ report_events a d3\<rparr>)" by blast
    then show ?thesis by (simp add: missing_in_report)
  qed
qed

theorem completeness_gaps_not_fatal_witness:
  "missing_items (dest (snd (main cli_defaults (env_of hub_up no_git) (start None))))
     = [weights_label, tokenizer_label]
   \<and> exit_status (fst (main cli_defaults (env_of hub_up no_git) (start None))) = 0
   \<and> Stdout (MissingItem weights_label)
       \<in> set (trace (snd (main cli_defaults (env_of hub_up no_git) (start None))))"
proof -
  have p: "prepare_destination cli_defaults (start None) = (Inr (), start None)"
    by (simp add: prepare_absent path_exists_def)
  have d: "prepared cli_defaults None = None"
    by (simp add: prepared_def p)
  have up: "primary_fetch cli_defaults (env_of hub_up no_git) None
       = (Inr ''/work/nomic-embed-text-v2-moe'', config_only)"
    by (simp add: primary_fetch_def env_of_def hub_up_def cli_defaults_def)
  have m: "missing_items config_only = [weights_label, tokenizer_label]"
    by (simp add: missing_items_def check_required_files_missing has_config_def has_weights_def
        has_tokenizer_def config_only_def child_def path_exists_def)
  have fin: "dest (snd (main cli_defaults (env_of hub_up no_git) (start None))) = config_only"
    using main_primary_ok [OF p, of "env_of hub_up no_git"] up by simp
  have h1: "fst (prepare_destination cli_defaults (start None)) = Inr ()"
    using p by simp
  have h2: "(\<exists>p d'. primary_fetch cli_defaults (env_of hub_up no_git) (prepared cli_defaults None)
               = (Inr p, d'))
         \<or> (\<exists>detail d' d''. primary_fetch cli_defaults (env_of hub_up no_git)
                 (prepared cli_defaults None) = (Inl detail, d')
               \<and> \<not> no_insecure cli_defaults
               \<and> clone_process cli_defaults (env_of hub_up no_git) d' = Exited 0 d'')"
    using up d by simp
  show ?thesis
    using completeness_gaps_not_fatal [OF h1 h2] m fin by simp
qed

subsection \<open>C6: the modules file is advisory\<close>

text \<open>
  C6: the list returned by \<^verbatim>\<open>check_required_files\<close> holds labels of the three
  requirements only, never \<^verbatim>\<open>modules.json\<close>; the absence of that file shows as
  the separate warning; and the success message of the report is decided by the three
  requirements alone.
\<close>

theorem modules_never_missing:
  "''modules.json'' \<notin> set (fst (check_required_files w))
   \<and> set (fst (check_required_files w)) \<subseteq> {config_label, weights_label, tokenizer_label}
   \<and> snd (check_required_files w) =
       (if has_modules (dest w) then w else emit (Stdout ModulesWarning) w)
   \<and> (Stdout AllFound \<in> set (trace (snd (report a w)))
        \<longleftrightarrow> Stdout AllFound \<in> set (trace w)
            \<or> has_config (dest w) \<and> has_weights (dest w) \<and> has_tokenizer (dest w))"
proof (intro conjI)
  show "''modules.json'' \<notin> set (fst (check_required_files w))"
    by (simp add: check_required_files_missing config_label_def weights_label_def
        tokenizer_label_def)
  show "set (fst (check_required_files w)) \<subseteq> {config_label, weights_label, tokenizer_label}"
    by (simp add: check_required_files_missing)
  show "snd (check_required_files w) =
       (if has_modules (dest w) then w else emit (Stdout ModulesWarning) w)"
    by (rule check_required_files_world)
  have "missing_items (dest w) = []
      \<longleftrightarrow> has_config (dest w) \<and> has_weights (dest w) \<and> has_tokenizer (dest w)"
    using missing_items_eq [of w, symmetric] by (simp add: check_required_files_missing)
  then show "Stdout AllFound \<in> set (trace (snd (report a w)))
        \<longleftrightarrow> Stdout AllFound \<in> set (trace w)
            \<or> has_config (dest w) \<and> has_weights (dest w) \<and> has_tokenizer (dest w)"
    by (simp add: report_result all_found_in_report)
qed

theorem modules_never_missing_witness:
  "\<not> has_modules all_but_modules
   \<and> fst (check_required_files (start all_but_modules)) = []
   \<and> trace (snd (check_required_files (start all_but_modules))) = [Stdout ModulesWarning]
   \<and> Stdout AllFound \<in> set (trace (snd (report cli_defaults (start all_but_modules))))"
proof -
  have m: "\<not> has_modules all_but_modules"
    by (simp add: has_modules_def all_but_modules_def child_def path_exists_def)
  have b: "has_config all_but_modules" "has_weights all_but_modules"
    "has_tokenizer all_but_modules"
    by (simp_all add: has_config_def has_weights_def has_tokenizer_def all_but_modules_def
        child_def path_exists_def)
  have e: "fst (check_required_files (start all_but_modules)) = []"
    using b by (simp add: check_required_files_missing)
  show ?thesis
    using modules_never_missing [of "start all_but_modules" cli_defaults] m b e
    by simp
qed

subsection \<open>C7: the listing is capped at 40 entries\<close>

text \<open>
  C7: on a destination tree of more than 40 files, \<^verbatim>\<open>print_summary\<close> prints the
  header, exactly the first 40 file entries of the walk, then the truncation notice, and
  nothing more.
\<close>

theorem print_summary_caps_listing:
  assumes "40 < dest_files (dest w)"
  shows "trace (print_summary out_dir 40 w) =
           trace w @ [Stdout (SummaryHeader out_dir)] @ take 40 (file_entries (dest w))
             @ [Stdout (ListingTruncated 40)]
         \<and> length (take 40 (file_entries (dest w))) = 40
         \<and> list_all is_file_entry (take 40 (file_entries (dest w)))
         \<and> dest (print_summary out_dir 40 w) = dest w"
proof -
  have l: "40 < length (file_entries (dest w))"
    using assms by (simp add: length_file_entries)
  have "list_all is_file_entry (take 40 (file_entries (dest w)))"
    by (auto simp add: list_all_iff dest: in_set_takeD file_entries_are_entries)
  then show ?thesis
    using l by (simp add: print_summary_run)
qed

theorem print_summary_caps_listing_witness:
  "40 < dest_files (flat_dir 41)
   \<and> length (file_entries (flat_dir 41)) = 41
   \<and> trace (print_summary ''/work/out'' 40 (start (flat_dir 41))) =
       [Stdout (SummaryHeader ''/work/out'')] @ take 40 (file_entries (flat_dir 41))
         @ [Stdout (ListingTruncated 40)]"
proof -
  have n: "dest_files (flat_dir 41) = 41"
    by (simp add: dest_files_def flat_dir_def comp_def sum_list_triv)
  then have h: "40 < dest_files (dest (start (flat_dir 41)))" by simp
  show ?thesis
    using print_summary_caps_listing [OF h, of "''/work/out''"] n
    by (simp add: length_file_entries)
qed

subsection \<open>C8: destination preparation\<close>

text \<open>
  C8: when the destination exists and \<^verbatim>\<open>--force\<close> is not set, the preparation
  returns normally with the destination untouched, having printed the warning, and the run
  goes on to attempt the download; under \<^verbatim>\<open>--force\<close> an existing directory is removed
  with all below it, and the run goes on as a run on an absent destination does, after the
  message of the removal.
\<close>

theorem destination_preparation:
  "(path_exists d \<and> \<not> force a \<longrightarrow>
      prepare_destination a (start d)
        = (Inr (), \<lparr>dest = d, trace = [Stdout (AlreadyExists (out a))]\<rparr>)
      \<and> take 3 (trace (snd (main a env (start d))))
          = [Stdout (AlreadyExists (out a)), Stdout (AttemptingSnapshot (repo a) (out a)),
             Download (repo a) (out a)])
   \<and> (force a \<longrightarrow>
      prepare_destination a (start (Some (Dir es)))
        = (Inr (), \<lparr>dest = None, trace = [Stdout (RemovingExisting (out a))]\<rparr>)
      \<and> main a env (start (Some (Dir es)))
          = apsnd (shift [Stdout (RemovingExisting (out a))]) (main a env (start None)))"
proof (intro conjI impI)
  assume h: "path_exists d \<and> \<not> force a"
  then have p: "prepare_destination a (start d)
        = (Inr (), \<lparr>dest = d, trace = [Stdout (AlreadyExists (out a))]\<rparr>)"
    by (simp add: prepare_keep emit_def start_def)
  then show "prepare_destination a (start d)
        = (Inr (), \<lparr>dest = d, trace = [Stdout (AlreadyExists (out a))]\<rparr>)" .
  from main_trace_start [OF p, of env]
  show "take 3 (trace (snd (main a env (start d))))
          = [Stdout (AlreadyExists (out a)), Stdout (AttemptingSnapshot (repo a) (out a)),
             Download (repo a) (out a)]"
    by auto
next
  assume f: "force a"
  then have p: "prepare_destination a (start (Some (Dir es)))
        = (Inr (), \<lparr>dest = None, trace = [Stdout (RemovingExisting (out a))]\<rparr>)"
    by (simp add: prepare_force_dir emit_def start_def)
  then show "prepare_destination a (start (Some (Dir es)))
        = (Inr (), \<lparr>dest = None, trace = [Stdout (RemovingExisting (out a))]\<rparr>)" .
  have s: "\<lparr>dest = None, trace = [Stdout (RemovingExisting (out a))]\<rparr>
             = shift [Stdout (RemovingExisting (out a))] (start None)"
    by (simp add: shift_def start_def)
  have q: "prepare_destination a (start None) = (Inr (), start None)"
    by (simp add: prepare_absent path_exists_def)
  show "main a env (start (Some (Dir es)))
          = apsnd (shift [Stdout (RemovingExisting (out a))]) (main a env (start None))"
    unfolding main_def Let_def p q s by (simp add: fetch_shift report_shift split: prod.splits sum.splits)
qed

theorem destination_preparation_witness:
  "path_exists existing_model \<and> \<not> force cli_defaults
   \<and> take 3 (trace (snd (main cli_defaults (env_of hub_down no_git) (start existing_model))))
       = [Stdout (AlreadyExists ''/work/nomic-embed-text-v2-moe''),
          Stdout (AttemptingSnapshot ''nomic-ai/nomic-embed-text-v2-moe''
                    ''/work/nomic-embed-text-v2-moe''),
          Download ''nomic-ai/nomic-embed-text-v2-moe'' ''/work/nomic-embed-text-v2-moe'']
   \<and> force (cli_defaults\<lparr>force := True\<rparr>)
   \<and> prepare_destination (cli_defaults\<lparr>force := True\<rparr>) (start existing_model)
       = (Inr (), \<lparr>dest = None, trace = [Stdout (RemovingExisting ''/work/nomic-embed-text-v2-moe'')]\<rparr>)"
proof -
  have e: "path_exists existing_model" by (simp add: existing_model_def path_exists_def)
  have nf: "\<not> force cli_defaults" by (simp add: cli_defaults_def)
  have f: "force (cli_defaults\<lparr>force := True\<rparr>)" by simp
  show ?thesis
    using destination_preparation [of existing_model cli_defaults "env_of hub_down no_git"]
      destination_preparation [of _ "cli_defaults\<lparr>force := True\<rparr>" _
        "[(''config.json'', File (Some 120)), (''old.bin'', File (Some 7))]"]
      e nf f
    by (simp add: cli_defaults_def existing_model_def)
qed

subsection \<open>C9: failures of git lfs are not fatal\<close>

text \<open>
  C9: whenever the clone command exits with 0, \<^verbatim>\<open>run_insecure_git_clone\<close> returns
  \<^verbatim>\<open>True\<close>, whatever the two \<^verbatim>\<open>git lfs\<close> commands do: any return code, or
  \<^verbatim>\<open>FileNotFoundError\<close> when they cannot be started.
\<close>

theorem lfs_failure_not_fatal:
  assumes "run_process env (clone_cmd repo_id out_dir) [(''GIT_SSL_NO_VERIFY'', ''true'')] None
             (dest w) = Exited 0 d'"
  shows "fst (run_insecure_git_clone env repo_id out_dir w) = Inr True"
  using assms lfs_pull_result [of env out_dir]
  by (simp add: run_insecure_git_clone_def subprocess_run_def Let_def)

theorem lfs_failure_not_fatal_witness:
  "run_process (env_of hub_down git_without_lfs) (clone_cmd ''org/model'' ''/work/out'')
       [(''GIT_SSL_NO_VERIFY'', ''true'')] None None = Exited 0 config_only
   \<and> run_process (env_of hub_down git_without_lfs) [''git'', ''lfs'', ''install''] []
       (Some ''/work/out'') config_only = NotFound
   \<and> fst (run_insecure_git_clone (env_of hub_down git_without_lfs) ''org/model'' ''/work/out''
            (start None)) = Inr True"
proof -
  have c: "run_process (env_of hub_down git_without_lfs) (clone_cmd ''org/model'' ''/work/out'')
       [(''GIT_SSL_NO_VERIFY'', ''true'')] None (dest (start None)) = Exited 0 config_only"
    by (simp add: env_of_def git_without_lfs_def clone_cmd_def)
  have l: "run_process (env_of hub_down git_without_lfs) [''git'', ''lfs'', ''install''] []
       (Some ''/work/out'') config_only = NotFound"
    by (simp add: env_of_def git_without_lfs_def)
  show ?thesis
    using lfs_failure_not_fatal [OF c] c l by simp
qed

subsection \<open>C10: the notice at exactly 40 files\<close>

text \<open>
  C10: on a destination tree of exactly 40 files, \<^verbatim>\<open>print_summary\<close> prints all 40
  entries and the truncation notice after them, although no entry was left out.
\<close>

theorem print_summary_notice_at_cap:
  assumes "dest_files (dest w) = 40"
  shows "trace (print_summary out_dir 40 w) =
           trace w @ [Stdout (SummaryHeader out_dir)] @ file_entries (dest w)
             @ [Stdout (ListingTruncated 40)]
         \<and> length (file_entries (dest w)) = 40
         \<and> list_all is_file_entry (file_entries (dest w))"
proof -
  have l: "length (file_entries (dest w)) = 40"
    using assms by (simp add: length_file_entries)
  have "list_all is_file_entry (file_entries (dest w))"
    by (auto simp add: list_all_iff dest: file_entries_are_entries)
  then show ?thesis
    using l by (simp add: print_summary_run)
qed

theorem print_summary_notice_at_cap_witness:
  "dest_files two_level_40 = 40
   \<and> trace (print_summary ''/work/out'' 40 (start two_level_40)) =
       [Stdout (SummaryHeader ''/work/out'')] @ file_entries two_level_40
         @ [Stdout (ListingTruncated 40)]
   \<and> last (file_entries two_level_40)
       = Stdout (FileEntry [''sub'', replicate 38 CHR ''g''] 37)"
proof -
  have n: "dest_files two_level_40 = 40"
    by (simp add: dest_files_def two_level_40_def comp_def sum_list_triv)
  then have h: "dest_files (dest (start two_level_40)) = 40" by simp
  have l: "last (file_entries two_level_40)
       = Stdout (FileEntry [''sub'', replicate 38 CHR ''g''] 37)"
    by code_simp
  show ?thesis
    using print_summary_notice_at_cap [OF h, of "''/work/out''"] n l
    by simp
qed

end
